theory Spec2Isabelle
  imports Main
begin

section \<open>Severity levels\<close>

text \<open>
  \<^verbatim>\<open>enum class LogLevel { DEBUG, INFO, WARNING, ERROR };\<close>

  A scoped enumeration without an explicit base has the underlying type \<^verbatim>\<open>int\<close>; the
  enumerators are numbered 0, 1, 2, 3 in declaration order, the relational operators
  compare the underlying values, and a \<^verbatim>\<open>static_cast\<close> can produce a \<^verbatim>\<open>LogLevel\<close>
  that is none of the four enumerators. A level is therefore modelled by its underlying
  integer. No arithmetic is done on levels, so the width of \<^verbatim>\<open>int\<close> plays no role.
\<close>

type_synonym LogLevel = int

definition DEBUG :: LogLevel where
  "DEBUG = 0"

definition INFO :: LogLevel where
  "INFO = 1"

definition WARNING :: LogLevel where
  "WARNING = 2"

definition ERROR :: LogLevel where
  "ERROR = 3"

text \<open>
  \<^verbatim>\<open>Logger::logLevelToString\<close>: a \<^verbatim>\<open>switch\<close> over the four enumerators, and
  \<^verbatim>\<open>return ""\<close> after it for every other value.
\<close>

definition logLevelToString :: "LogLevel \<Rightarrow> string" where
  "logLevelToString level =
     (if level = DEBUG then ''DEBUG''
      else if level = INFO then ''INFO''
      else if level = WARNING then ''WARNING''
      else if level = ERROR then ''ERROR''
      else '''')"

section \<open>Formatted output\<close>

text \<open>
  Decimal rendering of an \<^verbatim>\<open>int\<close> by \<^verbatim>\<open>operator<<\<close> on a stream in its default
  state (base ten, no padding, no digit grouping, a minus sign for negative values).
\<close>

definition digit_char :: "nat \<Rightarrow> char" where
  "digit_char d = ''0123456789'' ! (d mod 10)"

fun show_nat :: "nat \<Rightarrow> string" where
  "show_nat n = (if n < 10 then [digit_char n] else show_nat (n div 10) @ [digit_char (n mod 10)])"

declare show_nat.simps [simp del]

definition show_int :: "int \<Rightarrow> string" where
  "show_int i = (if i < 0 then CHR ''-'' # show_nat (nat (- i)) else show_nat (nat i))"

text \<open>
  The message parts are a template parameter pack: any values that have an
  \<^verbatim>\<open>operator<<\<close>. The model offers the kinds of value a caller ordinarily passes,
  C strings and \<^verbatim>\<open>std::string\<close>, integers, single characters and booleans, and
  \<open>render\<close> is the text \<^verbatim>\<open>stream << value\<close> inserts for each on a stream in its default
  state (a \<^verbatim>\<open>bool\<close> prints as \<^verbatim>\<open>1\<close> or \<^verbatim>\<open>0\<close>).
\<close>

datatype part = CStr string | CInt int | CChar char | CBool bool

fun render :: "part \<Rightarrow> string" where
  "render (CStr s) = s"
| "render (CInt i) = show_int i"
| "render (CChar c) = [c]"
| "render (CBool b) = (if b then ''1'' else ''0'')"

subsection \<open>Streams\<close>

text \<open>
  An output stream is modelled by its put area: the formatted insertions it has received
  since it was last flushed, oldest first. A \<^verbatim>\<open>std::stringstream\<close> is just that; its
  \<^verbatim>\<open>str()\<close> is the text of the put area. A \<^verbatim>\<open>std::ofstream\<close> adds whether a file is
  open and, when one is, the path it was opened on.
\<close>

record ostream =
  put_area :: "string list"

record ofstream = ostream +
  is_open :: bool
  target :: string

definition stringstream :: ostream where
  "stringstream = \<lparr>put_area = []\<rparr>"

definition ofstream :: ofstream where
  "ofstream = \<lparr>put_area = [], is_open = False, target = []\<rparr>"

text \<open>\<^verbatim>\<open>stream << text\<close>: one insertion.\<close>

definition out :: "'a ostream_scheme \<Rightarrow> string \<Rightarrow> 'a ostream_scheme" where
  "out stream text = stream\<lparr>put_area := put_area stream @ [text]\<rparr>"

definition str :: "'a ostream_scheme \<Rightarrow> string" where
  "str stream = concat (put_area stream)"

subsection \<open>Broken-down time\<close>

text \<open>
  \<^verbatim>\<open>struct tm\<close> of \<^verbatim>\<open><ctime>\<close>, as \<^verbatim>\<open>std::localtime\<close> fills it in: months count from 0
  and years from 1900.
\<close>

record tm =
  tm_sec :: int
  tm_min :: int
  tm_hour :: int
  tm_mday :: int
  tm_mon :: int
  tm_year :: int
  tm_wday :: int
  tm_yday :: int
  tm_isdst :: int

text \<open>
  \<^verbatim>\<open>std::put_time\<close> with the conversions the logger's format uses: \<^verbatim>\<open>%Y\<close> is the year
  as a decimal number, \<^verbatim>\<open>%m\<close>, \<^verbatim>\<open>%d\<close>, \<^verbatim>\<open>%H\<close>, \<^verbatim>\<open>%M\<close> and \<^verbatim>\<open>%S\<close> are the month
  (from 1), the day of the month, the hour, the minute and the second as two digits with
  a leading zero. Every other character of the format is copied.
\<close>

definition pad2 :: "int \<Rightarrow> string" where
  "pad2 n = (if 0 \<le> n \<and> n < 10 then CHR ''0'' # show_int n else show_int n)"

definition conversion :: "tm \<Rightarrow> char \<Rightarrow> string" where
  "conversion t c =
     (if c = CHR ''Y'' then show_int (tm_year t + 1900)
      else if c = CHR ''m'' then pad2 (tm_mon t + 1)
      else if c = CHR ''d'' then pad2 (tm_mday t)
      else if c = CHR ''H'' then pad2 (tm_hour t)
      else if c = CHR ''M'' then pad2 (tm_min t)
      else if c = CHR ''S'' then pad2 (tm_sec t)
      else [CHR ''%'', c])"

fun put_time :: "tm \<Rightarrow> string \<Rightarrow> string" where
  "put_time t [] = []"
| "put_time t [c] = [c]"
| "put_time t (c # d # fmt) =
     (if c = CHR ''%'' then conversion t d @ put_time t fmt else c # put_time t (d # fmt))"

declare put_time.simps [simp del]

section \<open>The environment\<close>

text \<open>
  What the logger touches outside itself: the files, by path, and the diagnostic stream
  \<^verbatim>\<open>std::cerr\<close>. A path either names nothing yet, or names a file with its content, or
  cannot be opened for writing (a directory, a missing parent directory, a file without
  write permission).
\<close>

datatype fentry = Missing | File string | Denied

record world =
  files :: "string \<Rightarrow> fentry"
  cerr :: string

text \<open>
  \<^verbatim>\<open>logFile.open(logFileName, std::ios_base::app)\<close>: an existing file is opened with its
  content kept, a missing one is created empty, and on failure the stream stays closed.
\<close>

definition open_app :: "world \<Rightarrow> ofstream \<Rightarrow> string \<Rightarrow> world \<times> ofstream" where
  "open_app w f name =
     (case files w name of
        File c \<Rightarrow> (w, f\<lparr>is_open := True, target := name\<rparr>)
      | Missing \<Rightarrow> (w\<lparr>files := (files w)(name := File [])\<rparr>, f\<lparr>is_open := True, target := name\<rparr>)
      | Denied \<Rightarrow> (w, f))"

text \<open>
  Flushing hands the put area to the file. In append mode every write lands at the
  current end of the file.
\<close>

definition flush :: "world \<Rightarrow> ofstream \<Rightarrow> world \<times> ofstream" where
  "flush w f =
     (if is_open f then
        (case files w (target f) of
           File c \<Rightarrow> (w\<lparr>files := (files w)(target f := File (c @ str f))\<rparr>, f\<lparr>put_area := []\<rparr>)
         | _ \<Rightarrow> (w, f\<lparr>put_area := []\<rparr>))
      else (w, f\<lparr>put_area := []\<rparr>))"

text \<open>\<^verbatim>\<open>stream << std::endl\<close>: a newline, then a flush.\<close>

definition endl :: "world \<Rightarrow> ofstream \<Rightarrow> world \<times> ofstream" where
  "endl w f = flush w (out f ''\<newline>'')"

definition close :: "world \<Rightarrow> ofstream \<Rightarrow> world \<times> ofstream" where
  "close w f =
     (if is_open f then (let (w', f') = flush w f in (w', f'\<lparr>is_open := False\<rparr>)) else (w, f))"

section \<open>The logger\<close>

text \<open>
  The fields of \<^verbatim>\<open>class Logger\<close>. The \<^verbatim>\<open>std::mutex\<close> is left out: the model runs one
  call at a time, where the \<^verbatim>\<open>std::lock_guard\<close> around the write takes the lock on
  entry and gives it back on exit.
\<close>

record Logger =
  logLevel :: LogLevel
  logFileName :: string
  logFile :: ofstream

text \<open>The constructor, \<^verbatim>\<open>Logger::Logger(logFileName, level)\<close>.\<close>

definition Logger :: "world \<Rightarrow> string \<Rightarrow> LogLevel \<Rightarrow> world \<times> Logger" where
  "Logger w name level =
     (let (w1, f) = open_app w ofstream name;
          this = \<lparr>logLevel = level, logFileName = name, logFile = f\<rparr>
      in if \<not> is_open f
         then (w1\<lparr>cerr := cerr w1 @ ''Error opening log file.'' @ ''\<newline>''\<rparr>, this)
         else (w1, this))"

text \<open>The destructor, \<^verbatim>\<open>Logger::~Logger()\<close>; the object is gone afterwards.\<close>

definition Logger_destroy :: "world \<Rightarrow> Logger \<Rightarrow> world" where
  "Logger_destroy w this =
     (if is_open (logFile this) then fst (close w (logFile this)) else w)"

definition setLogLevel :: "Logger \<Rightarrow> LogLevel \<Rightarrow> Logger" where
  "setLogLevel this level = this\<lparr>logLevel := level\<rparr>"

text \<open>
  \<^verbatim>\<open>logMessage(stream, value, args...)\<close> and its overload for the empty pack.
\<close>

function (sequential) logMessage :: "'a ostream_scheme \<Rightarrow> part list \<Rightarrow> 'a ostream_scheme" where
  "logMessage stream (v # args) = logMessage (out stream (render v)) args"
| "logMessage stream [] = stream"
  by pat_completeness auto

termination logMessage
  by (relation "measure (\<lambda>(stream, args). length args)") auto

text \<open>The private overload \<^verbatim>\<open>log(message, args...)\<close>.\<close>

definition log_message :: "world \<Rightarrow> Logger \<Rightarrow> string \<Rightarrow> part list \<Rightarrow> world \<times> Logger" where
  "log_message w this message args =
     (if is_open (logFile this) then
        (let s1 = out (logFile this) message;
             s2 = logMessage s1 args;
             (w', s3) = endl w s2
         in (w', this\<lparr>logFile := s3\<rparr>))
      else (w, this))"

text \<open>
  The public \<^verbatim>\<open>log(level, file, line, args...)\<close>. The argument \<open>now\<close> is what
  \<^verbatim>\<open>std::localtime\<close> returns for the \<^verbatim>\<open>std::time\<close> read by this call. The chain of
  \<^verbatim>\<open><<\<close> on the local \<^verbatim>\<open>stringstream\<close> is the left fold of \<open>out\<close> over the operands.
\<close>

definition log :: "world \<Rightarrow> Logger \<Rightarrow> tm \<Rightarrow> LogLevel \<Rightarrow> string \<Rightarrow> int \<Rightarrow> part list \<Rightarrow> world \<times> Logger" where
  "log w this now level file line args =
     (if level \<ge> logLevel this then
        (let ss = foldl out stringstream
                    [put_time now ''%Y-%m-%d %H:%M:%S'', '' ['', logLevelToString level, ''] '',
                     file, '':'', show_int line, '' - '']
         in log_message w this (str ss) args)
      else (w, this))"

definition debug :: "world \<Rightarrow> Logger \<Rightarrow> tm \<Rightarrow> string \<Rightarrow> int \<Rightarrow> part list \<Rightarrow> world \<times> Logger" where
  "debug w this now file line args = log w this now DEBUG file line args"

definition info :: "world \<Rightarrow> Logger \<Rightarrow> tm \<Rightarrow> string \<Rightarrow> int \<Rightarrow> part list \<Rightarrow> world \<times> Logger" where
  "info w this now file line args = log w this now INFO file line args"

definition warning :: "world \<Rightarrow> Logger \<Rightarrow> tm \<Rightarrow> string \<Rightarrow> int \<Rightarrow> part list \<Rightarrow> world \<times> Logger" where
  "warning w this now file line args = log w this now WARNING file line args"

definition error :: "world \<Rightarrow> Logger \<Rightarrow> tm \<Rightarrow> string \<Rightarrow> int \<Rightarrow> part list \<Rightarrow> world \<times> Logger" where
  "error w this now file line args = log w this now ERROR file line args"

section \<open>States and inputs used in the statements\<close>

text \<open>
  \<open>open_on w this c\<close>: the logger's stream is open with nothing waiting in its put area,
  and the file it is open on holds \<open>c\<close>. A successful construction establishes this and
  every call of the logger keeps it.
\<close>

definition open_on :: "world \<Rightarrow> Logger \<Rightarrow> string \<Rightarrow> bool" where
  "open_on w this c \<longleftrightarrow>
     is_open (logFile this) \<and> put_area (logFile this) = [] \<and>
     files w (target (logFile this)) = File c"


text \<open>
  A caller that makes one \<open>log\<close> call after another on the same logger, as the
  \<^verbatim>\<open>main\<close> kept in a comment at the end of the source does. Each call comes with the
  clock reading it takes.
\<close>

datatype call = Call tm LogLevel string int "part list"

fun run :: "world \<Rightarrow> Logger \<Rightarrow> call list \<Rightarrow> world \<times> Logger" where
  "run w this [] = (w, this)"
| "run w this (Call now level file line args # calls) =
     (let (w', this') = log w this now level file line args in run w' this' calls)"

text \<open>
  Concrete inputs: noon and five seconds on Monday, 1 January 2024; and a file system
  with one log file that already has a line, and one path that cannot be opened.
\<close>

definition new_year :: tm where
  "new_year = \<lparr>tm_sec = 5, tm_min = 0, tm_hour = 12, tm_mday = 1, tm_mon = 0, tm_year = 124,
                tm_wday = 1, tm_yday = 0, tm_isdst = 0\<rparr>"

definition disk :: world where
  "disk = \<lparr>files = (\<lambda>path. Missing)(''app.log'' := File ''old\<newline>'', ''/proc/app.log'' := Denied),
           cerr = []\<rparr>"

text \<open>
  Two loggers built on that file system with the default level: one on the log file, one
  on the path that cannot be opened, with the world each construction leaves.
\<close>

definition app_logger :: Logger where
  "app_logger = snd (Logger disk ''app.log'' INFO)"

definition proc_world :: world where
  "proc_world = fst (Logger disk ''/proc/app.log'' INFO)"

definition proc_logger :: Logger where
  "proc_logger = snd (Logger disk ''/proc/app.log'' INFO)"

section \<open>Streams and rendering\<close>

lemma logMessage_eq:
  "logMessage stream args = stream\<lparr>put_area := put_area stream @ map render args\<rparr>"
  by (induction args arbitrary: stream) (simp_all add: out_def)

lemma str_chain:
  "str (foldl out stringstream [a, b, c, d, e, f, g, h]) = a @ b @ c @ d @ e @ f @ g @ h"
  by (simp add: str_def out_def stringstream_def)

lemma digit_char_mod: "digit_char (n mod 10) = digit_char n"
  by (simp add: digit_char_def)


lemma digit_char_digit: "digit_char n \<in> set ''0123456789''"
proof -
  have "n mod 10 < length ''0123456789''" by simp
  then show ?thesis unfolding digit_char_def by (rule nth_mem)
qed

lemma show_nat_1: "n < 10 \<Longrightarrow> show_nat n = [digit_char n]"
  by (subst show_nat.simps) simp

lemma show_nat_2:
  "10 \<le> n \<Longrightarrow> n < 100 \<Longrightarrow> show_nat n = [digit_char (n div 10), digit_char n]"
  by (subst show_nat.simps) (simp add: show_nat_1 digit_char_mod)

lemma show_nat_3:
  "100 \<le> n \<Longrightarrow> n < 1000 \<Longrightarrow>
   show_nat n = [digit_char (n div 100), digit_char (n div 10), digit_char n]"
  by (subst show_nat.simps) (simp add: show_nat_2 digit_char_mod div_mult2_eq [symmetric])

lemma show_nat_4:
  "1000 \<le> n \<Longrightarrow> n < 10000 \<Longrightarrow>
   show_nat n =
     [digit_char (n div 1000), digit_char (n div 100), digit_char (n div 10), digit_char n]"
  by (subst show_nat.simps) (simp add: show_nat_3 digit_char_mod div_mult2_eq [symmetric])


lemma put_time_fmt:
  "put_time t ''%Y-%m-%d %H:%M:%S'' =
     show_int (tm_year t + 1900) @ ''-'' @ pad2 (tm_mon t + 1) @ ''-'' @ pad2 (tm_mday t) @ '' '' @
     pad2 (tm_hour t) @ '':'' @ pad2 (tm_min t) @ '':'' @ pad2 (tm_sec t)"
  by (simp add: put_time.simps conversion_def)

lemma show_nat_chars: "set (show_nat n) \<subseteq> set ''0123456789''"
proof (induction n rule: show_nat.induct)
  case (1 n)
  show ?case
  proof (cases "n < 10")
    case True
    then show ?thesis using digit_char_digit [of n] by (simp add: show_nat_1)
  next
    case False
    have "show_nat n = show_nat (n div 10) @ [digit_char (n mod 10)]"
      using False by (subst show_nat.simps) simp
    then show ?thesis
      using 1 [OF False] digit_char_digit [of "n mod 10"] by simp
  qed
qed

lemma show_int_no_newline: "CHR ''\<newline>'' \<notin> set (show_int i)"
  using show_nat_chars [of "nat i"] show_nat_chars [of "nat (- i)"]
  by (auto simp: show_int_def)

lemma pad2_no_newline: "CHR ''\<newline>'' \<notin> set (pad2 i)"
  using show_int_no_newline [of i] by (simp add: pad2_def)

lemma put_time_no_newline: "CHR ''\<newline>'' \<notin> set (put_time t ''%Y-%m-%d %H:%M:%S'')"
  by (simp only: put_time_fmt) (simp add: show_int_no_newline pad2_no_newline)

lemma logLevelToString_no_newline: "CHR ''\<newline>'' \<notin> set (logLevelToString level)"
  by (simp add: logLevelToString_def)


section \<open>One call\<close>

lemma log_message_open:
  assumes "open_on w this c"
  shows "log_message w this message args =
           (w\<lparr>files := (files w)(target (logFile this) :=
                 File (c @ message @ concat (map render args) @ ''\<newline>''))\<rparr>, this)"
  using assms
  by (simp add: open_on_def log_message_def logMessage_eq endl_def flush_def out_def str_def)

lemma log_message_closed:
  "\<not> is_open (logFile this) \<Longrightarrow> log_message w this message args = (w, this)"
  by (simp add: log_message_def)

lemma log_pass:
  assumes "open_on w this c" "logLevel this \<le> level"
  shows "log w this now level file line args =
           (w\<lparr>files := (files w)(target (logFile this) :=
                 File (c @ put_time now ''%Y-%m-%d %H:%M:%S'' @ '' ['' @ logLevelToString level @
                       ''] '' @ file @ '':'' @ show_int line @ '' - '' @
                       concat (map render args) @ ''\<newline>''))\<rparr>, this)"
  using assms unfolding log_def
  by (simp only: str_chain Let_def log_message_open [OF assms(1)] if_True append_assoc)

lemma log_drop: "level < logLevel this \<Longrightarrow> log w this now level file line args = (w, this)"
  by (simp add: log_def)

lemma log_closed: "\<not> is_open (logFile this) \<Longrightarrow> log w this now level file line args = (w, this)"
  by (simp add: log_def log_message_closed)

lemma open_on_update:
  "open_on w this c \<Longrightarrow>
   open_on (w\<lparr>files := (files w)(target (logFile this) := File c')\<rparr>) this c'"
  by (simp add: open_on_def)

lemma Logger_existing:
  "files w name = File c \<Longrightarrow>
   Logger w name level =
     (w, \<lparr>logLevel = level, logFileName = name,
          logFile = \<lparr>put_area = [], is_open = True, target = name\<rparr>\<rparr>)"
  by (simp add: Logger_def open_app_def ofstream_def)

lemma Logger_missing:
  "files w name = Missing \<Longrightarrow>
   Logger w name level =
     (w\<lparr>files := (files w)(name := File [])\<rparr>,
      \<lparr>logLevel = level, logFileName = name,
       logFile = \<lparr>put_area = [], is_open = True, target = name\<rparr>\<rparr>)"
  by (simp add: Logger_def open_app_def ofstream_def)

lemma Logger_denied:
  "files w name = Denied \<Longrightarrow>
   Logger w name level =
     (w\<lparr>cerr := cerr w @ ''Error opening log file.'' @ ''\<newline>''\<rparr>,
      \<lparr>logLevel = level, logFileName = name, logFile = ofstream\<rparr>)"
  by (simp add: Logger_def open_app_def ofstream_def)

lemma Logger_destroy_flushed:
  "open_on w this c \<Longrightarrow> Logger_destroy w this = w"
  by (simp add: Logger_destroy_def close_def flush_def open_on_def str_def fun_upd_idem)

text \<open>
  Every logger whose construction succeeded is \<open>open_on\<close> its file, and the calls keep it
  so: the states the statements below speak about are the ones a program reaches.
\<close>

lemma Logger_establishes:
  assumes "is_open (logFile (snd (Logger w name level)))"
  shows "\<exists>c. open_on (fst (Logger w name level)) (snd (Logger w name level)) c"
proof (cases "files w name")
  case Missing
  then show ?thesis by (simp add: Logger_missing open_on_def)
next
  case (File c)
  then show ?thesis by (simp add: Logger_existing open_on_def)
next
  case Denied
  with assms show ?thesis by (simp add: Logger_denied ofstream_def)
qed

lemma log_keeps_open_on:
  assumes "open_on w this c"
  shows "\<exists>c'. open_on (fst (log w this now level file line args))
                        (snd (log w this now level file line args)) c'"
proof (cases "logLevel this \<le> level")
  case True
  show ?thesis
    unfolding log_pass [OF assms True] fst_conv snd_conv
    using assms by (blast intro: open_on_update)
next
  case False
  then have "log w this now level file line args = (w, this)"
    by (simp add: log_drop)
  with assms show ?thesis by auto
qed

lemma open_on_setLogLevel: "open_on w (setLogLevel this l) c = open_on w this c"
  by (simp add: open_on_def setLogLevel_def)

section \<open>A sequence of calls\<close>

lemma Logger_open_on:
  assumes "files w name = File c"
  shows "fst (Logger w name level) = w"
    and "open_on w (snd (Logger w name level)) c"
    and "target (logFile (snd (Logger w name level))) = name"
    and "logLevel (snd (Logger w name level)) = level"
  using assms by (simp_all add: Logger_existing open_on_def)

lemma run_open:
  assumes "open_on w this c"
  shows "run w this calls =
     (w\<lparr>files := (files w)(target (logFile this) :=
          File (c @ concat (map (\<lambda>k. case k of Call now lv file line args \<Rightarrow>
             if logLevel this \<le> lv
             then put_time now ''%Y-%m-%d %H:%M:%S'' @ '' ['' @ logLevelToString lv @ ''] '' @ file @
                  '':'' @ show_int line @ '' - '' @ concat (map render args) @ ''\<newline>''
             else []) calls)))\<rparr>, this)"
    (is "_ = (w\<lparr>files := (files w)(?p := File (c @ concat (map ?f calls)))\<rparr>, this)")
  using assms
proof (induction calls arbitrary: w c)
  case Nil
  then show ?case
    by (simp add: open_on_def fun_upd_idem)
next
  case (Cons k calls)
  obtain now lv "file" line args where k: "k = Call now lv file line args"
    by (cases k)
  show ?case
  proof (cases "logLevel this \<le> lv")
    case True
    let ?w = "w\<lparr>files := (files w)(?p := File (c @ ?f k))\<rparr>"
    have "log w this now lv file line args = (?w, this)"
      using log_pass [OF Cons.prems True] by (simp add: k True)
    then have "run w this (k # calls) = run ?w this calls"
      by (simp add: k)
    also have "\<dots> = (?w\<lparr>files := (files ?w)(?p := File ((c @ ?f k) @ concat (map ?f calls)))\<rparr>, this)"
      using Cons.prems by (intro Cons.IH open_on_update)
    also have "\<dots> = (w\<lparr>files := (files w)(?p := File (c @ concat (map ?f (k # calls))))\<rparr>, this)"
      by simp
    finally show ?thesis .
  next
    case False
    then have "log w this now lv file line args = (w, this)"
      by (simp add: log_drop)
    then have "run w this (k # calls) = run w this calls"
      by (simp add: k)
    also have "\<dots> = (w\<lparr>files := (files w)(?p := File (c @ concat (map ?f calls)))\<rparr>, this)"
      using Cons.prems by (rule Cons.IH)
    also have "concat (map ?f calls) = concat (map ?f (k # calls))"
      by (simp add: k False)
    finally show ?thesis .
  qed
qed

section \<open>The concrete inputs\<close>

lemma app_logger_eq: "app_logger = \<lparr>logLevel = INFO, logFileName = ''app.log'',
     logFile = \<lparr>put_area = [], is_open = True, target = ''app.log''\<rparr>\<rparr>"
  by (simp add: app_logger_def Logger_def open_app_def disk_def ofstream_def)

lemma app_logger_open: "open_on disk app_logger ''old\<newline>''"
  by (simp add: app_logger_eq open_on_def disk_def)

lemma proc_logger_eq: "proc_logger = \<lparr>logLevel = INFO, logFileName = ''/proc/app.log'', logFile = ofstream\<rparr>"
  by (simp add: proc_logger_def Logger_def open_app_def disk_def ofstream_def)

lemma proc_world_eq: "proc_world = disk\<lparr>cerr := ''Error opening log file.\<newline>''\<rparr>"
  by (simp add: proc_world_def Logger_def open_app_def disk_def ofstream_def)

lemma show_int_7: "show_int 7 = ''7''"
  by (simp add: show_int_def show_nat_1 digit_char_def)

lemma show_int_42: "show_int 42 = ''42''"
  by (simp add: show_int_def show_nat_2 digit_char_def)

lemma show_int_8080: "show_int 8080 = ''8080''"
  by (simp add: show_int_def show_nat_4 digit_char_def)

lemma new_year_stamp: "put_time new_year ''%Y-%m-%d %H:%M:%S'' = ''2024-01-01 12:00:05''"
  by (simp add: put_time.simps conversion_def pad2_def new_year_def show_int_def show_nat_1
      show_nat_2 show_nat_4 digit_char_def)


section \<open>Filtering\<close>

text \<open>
  C1, as amended. On a logger whose file is open, for every threshold and every event
  level (the enumerators are ordered \<open>DEBUG < INFO < WARNING < ERROR\<close>), a call of \<open>log\<close> at
  that level, or of \<open>debug\<close>, \<open>info\<close>, \<open>warning\<close> or \<open>error\<close> at its own level, appends
  exactly one newline-terminated record to the file when the event level is at least the
  threshold: the file gains some text and one newline after it, and nothing else in the
  world or the logger changes. The record is exactly one line, that is, the text before
  the final newline has no newline in it, if and only if neither the source file name nor
  the rendering of any part contains a newline. When the event level is below the
  threshold the call returns the world and the logger it was given.
\<close>

theorem log_filter:
  assumes "open_on w this c"
    and "(entry, level) \<in> set [(log w this now level, level), (debug w this now, DEBUG),
           (info w this now, INFO), (warning w this now, WARNING), (error w this now, ERROR)]"
  shows "DEBUG < INFO \<and> INFO < WARNING \<and> WARNING < ERROR \<and>
    (logLevel this \<le> level \<longrightarrow>
       (\<exists>ln. entry file line args =
               (w\<lparr>files := (files w)(target (logFile this) := File (c @ ln @ ''\<newline>''))\<rparr>, this) \<and>
             ((CHR ''\<newline>'' \<notin> set ln) =
              (CHR ''\<newline>'' \<notin> set file \<and> (\<forall>a \<in> set args. CHR ''\<newline>'' \<notin> set (render a)))))) \<and>
    (level < logLevel this \<longrightarrow> entry file line args = (w, this))"
proof -
  have entry: "entry = log w this now level"
    using assms(2) by (auto simp: debug_def info_def warning_def error_def fun_eq_iff)
  have order: "DEBUG < INFO \<and> INFO < WARNING \<and> WARNING < ERROR"
    by (simp add: DEBUG_def INFO_def WARNING_def ERROR_def)
  have pass: "\<exists>ln. entry file line args =
               (w\<lparr>files := (files w)(target (logFile this) := File (c @ ln @ ''\<newline>''))\<rparr>, this) \<and>
             ((CHR ''\<newline>'' \<notin> set ln) =
              (CHR ''\<newline>'' \<notin> set file \<and> (\<forall>a \<in> set args. CHR ''\<newline>'' \<notin> set (render a))))"
    if le: "logLevel this \<le> level"
  proof -
    let ?ln = "put_time now ''%Y-%m-%d %H:%M:%S'' @ '' ['' @ logLevelToString level @ ''] '' @
               file @ '':'' @ show_int line @ '' - '' @ concat (map render args)"
    have "entry file line args =
            (w\<lparr>files := (files w)(target (logFile this) := File (c @ ?ln @ ''\<newline>''))\<rparr>, this)"
      unfolding entry using log_pass [OF assms(1) le] by simp
    moreover have "(CHR ''\<newline>'' \<notin> set ?ln) =
        (CHR ''\<newline>'' \<notin> set file \<and> (\<forall>a \<in> set args. CHR ''\<newline>'' \<notin> set (render a)))"
      using put_time_no_newline [of now] logLevelToString_no_newline [of level]
        show_int_no_newline [of line]
      by auto
    ultimately show ?thesis by blast
  qed
  have drop: "entry file line args = (w, this)" if "level < logLevel this"
    unfolding entry using that by (rule log_drop)
  from order pass drop show ?thesis by blast
qed

theorem log_filter_witness:
  "open_on disk app_logger ''old\<newline>'' \<and>
   logLevel app_logger \<le> ERROR \<and>
   (\<exists>ln. error disk app_logger new_year ''main.cpp'' 42 [CStr ''port '', CInt 8080] =
           (disk\<lparr>files := (files disk)(''app.log'' := File (''old\<newline>'' @ ln @ ''\<newline>''))\<rparr>, app_logger) \<and>
         CHR ''\<newline>'' \<notin> set ln) \<and>
   DEBUG < logLevel app_logger \<and>
   debug disk app_logger new_year ''main.cpp'' 42 [CStr ''port '', CInt 8080] = (disk, app_logger)"
proof -
  have lv: "logLevel app_logger = INFO" and tg: "target (logFile app_logger) = ''app.log''"
    by (simp_all add: app_logger_eq)
  have le: "logLevel app_logger \<le> ERROR" and lt: "DEBUG < logLevel app_logger"
    by (simp_all add: lv DEBUG_def INFO_def ERROR_def)
  have nl: "CHR ''\<newline>'' \<notin> set ''main.cpp'' \<and>
            (\<forall>a \<in> set [CStr ''port '', CInt 8080]. CHR ''\<newline>'' \<notin> set (render a))"
    by (simp add: show_int_no_newline)
  have e: "(error disk app_logger new_year, ERROR) \<in>
             set [(log disk app_logger new_year ERROR, ERROR), (debug disk app_logger new_year, DEBUG),
                  (info disk app_logger new_year, INFO), (warning disk app_logger new_year, WARNING),
                  (error disk app_logger new_year, ERROR)]"
    and d: "(debug disk app_logger new_year, DEBUG) \<in>
             set [(log disk app_logger new_year DEBUG, DEBUG), (debug disk app_logger new_year, DEBUG),
                  (info disk app_logger new_year, INFO), (warning disk app_logger new_year, WARNING),
                  (error disk app_logger new_year, ERROR)]"
    by simp_all
  show ?thesis
    using log_filter [OF app_logger_open e, of "''main.cpp''" 42 "[CStr ''port '', CInt 8080]"]
      log_filter [OF app_logger_open d, of "''main.cpp''" 42 "[CStr ''port '', CInt 8080]"]
      app_logger_open le lt nl
    unfolding tg by blast
qed

text \<open>
  The claim as stated fails in two ways. For every logger: the logger built on the path
  that cannot be opened has threshold \<open>INFO\<close>, and its \<open>error\<close> call appends nothing
  anywhere. For every list of parts: on the logger whose file is open, an \<open>info\<close> call
  with the single part \<^verbatim>\<open>"a\nb"\<close> appends two lines, the first ending after \<^verbatim>\<open>a\<close> and the
  second being \<^verbatim>\<open>b\<close>.
\<close>

theorem log_filter_counterexample:
  "logLevel proc_logger \<le> ERROR \<and>
   error proc_world proc_logger new_year ''main.cpp'' 42 [CStr ''port '', CInt 8080] =
     (proc_world, proc_logger) \<and>
   files proc_world ''/proc/app.log'' = Denied \<and> \<not> is_open (logFile proc_logger) \<and>
   open_on disk app_logger ''old\<newline>'' \<and> logLevel app_logger \<le> INFO \<and>
   info disk app_logger new_year ''main.cpp'' 42 [CStr ''a\<newline>b''] =
     (disk\<lparr>files := (files disk)(''app.log'' :=
        File ''old\<newline>2024-01-01 12:00:05 [INFO] main.cpp:42 - a\<newline>b\<newline>'')\<rparr>, app_logger)"
proof -
  have closed: "logLevel proc_logger \<le> ERROR \<and>
      error proc_world proc_logger new_year ''main.cpp'' 42 [CStr ''port '', CInt 8080] =
        (proc_world, proc_logger) \<and>
      files proc_world ''/proc/app.log'' = Denied \<and> \<not> is_open (logFile proc_logger)"
    by (simp add: proc_logger_eq proc_world_eq error_def log_def log_message_def ofstream_def
        INFO_def ERROR_def disk_def)
  have le: "logLevel app_logger \<le> INFO"
    by (simp add: app_logger_eq)
  have tg: "target (logFile app_logger) = ''app.log''"
    by (simp add: app_logger_eq)
  have nm: "logLevelToString INFO = ''INFO''"
    by (simp add: logLevelToString_def DEBUG_def INFO_def)
  have "info disk app_logger new_year ''main.cpp'' 42 [CStr ''a\<newline>b''] =
     (disk\<lparr>files := (files disk)(''app.log'' :=
        File ''old\<newline>2024-01-01 12:00:05 [INFO] main.cpp:42 - a\<newline>b\<newline>'')\<rparr>, app_logger)"
    unfolding info_def log_pass [OF app_logger_open le] tg nm new_year_stamp show_int_42
    by simp
  with closed app_logger_open le show ?thesis
    by (simp only: simp_thms)
qed

section \<open>The format of a line\<close>



section \<open>The message body\<close>

text \<open>
  C3. For every finite list of parts, empty or not, the text written after the header is
  the renderings of the parts in the order given, with nothing between them; with no
  parts the line is the header and the newline. The parts \<^verbatim>\<open>"a"\<close>, \<^verbatim>\<open>1\<close>, \<^verbatim>\<open>"b"\<close> give the
  body \<^verbatim>\<open>a1b\<close>, as in \<^verbatim>\<open>info(f, l, "a", 1, "b")\<close>.
\<close>

theorem body_is_concatenation:
  fixes now :: tm and level :: LogLevel and "file" :: string and line :: int
  defines "header \<equiv> put_time now ''%Y-%m-%d %H:%M:%S'' @ '' ['' @ logLevelToString level @ ''] '' @
                      file @ '':'' @ show_int line @ '' - ''"
  assumes "open_on w this c" and "logLevel this \<le> level"
  shows "log w this now level file line args =
           (w\<lparr>files := (files w)(target (logFile this) :=
                 File (c @ header @ concat (map render args) @ ''\<newline>''))\<rparr>, this) \<and>
         log w this now level file line [] =
           (w\<lparr>files := (files w)(target (logFile this) := File (c @ header @ ''\<newline>''))\<rparr>, this) \<and>
         concat (map render [CStr ''a'', CInt 1, CStr ''b'']) = ''a1b'' \<and>
         (level = INFO \<longrightarrow>
            info w this now file line [CStr ''a'', CInt 1, CStr ''b''] =
              (w\<lparr>files := (files w)(target (logFile this) :=
                    File (c @ header @ ''a1b'' @ ''\<newline>''))\<rparr>, this))"
proof -
  have one: "show_int 1 = ''1''"
    by (simp add: show_int_def show_nat_1 digit_char_def)
  have "log w this now level file line args =
           (w\<lparr>files := (files w)(target (logFile this) :=
                 File (c @ header @ concat (map render args) @ ''\<newline>''))\<rparr>, this)" for args
    using log_pass [OF assms(2,3), of now "file" line args] by (simp add: header_def)
  note any = this
  have abc: "concat (map render [CStr ''a'', CInt 1, CStr ''b'']) = ''a1b''"
    by (simp add: one)
  have "info w this now file line [CStr ''a'', CInt 1, CStr ''b''] =
              (w\<lparr>files := (files w)(target (logFile this) :=
                    File (c @ header @ ''a1b'' @ ''\<newline>''))\<rparr>, this)" if "level = INFO"
    using any [of "[CStr ''a'', CInt 1, CStr ''b'']"] that unfolding abc info_def by simp
  with any [of args] any [of "[]"] abc show ?thesis by simp
qed

theorem body_is_concatenation_witness:
  "open_on disk app_logger ''old\<newline>'' \<and> logLevel app_logger \<le> INFO \<and>
   info disk app_logger new_year ''main.cpp'' 42 [CStr ''a'', CInt 1, CStr ''b''] =
     (disk\<lparr>files := (files disk)(''app.log'' :=
        File ''old\<newline>2024-01-01 12:00:05 [INFO] main.cpp:42 - a1b\<newline>'')\<rparr>, app_logger) \<and>
   log disk app_logger new_year INFO ''main.cpp'' 42 [] =
     (disk\<lparr>files := (files disk)(''app.log'' :=
        File ''old\<newline>2024-01-01 12:00:05 [INFO] main.cpp:42 - \<newline>'')\<rparr>, app_logger)"
proof -
  have le: "logLevel app_logger \<le> INFO"
    by (simp add: app_logger_eq)
  have tg: "target (logFile app_logger) = ''app.log''"
    by (simp add: app_logger_eq)
  have nm: "logLevelToString INFO = ''INFO''"
    by (simp add: logLevelToString_def DEBUG_def INFO_def)
  note inst = body_is_concatenation [OF app_logger_open le, of new_year "''main.cpp''" 42 "[]",
      unfolded tg nm new_year_stamp show_int_42]
  from inst have "info disk app_logger new_year ''main.cpp'' 42 [CStr ''a'', CInt 1, CStr ''b''] =
     (disk\<lparr>files := (files disk)(''app.log'' :=
        File ''old\<newline>2024-01-01 12:00:05 [INFO] main.cpp:42 - a1b\<newline>'')\<rparr>, app_logger)"
    by simp
  moreover from inst have "log disk app_logger new_year INFO ''main.cpp'' 42 [] =
     (disk\<lparr>files := (files disk)(''app.log'' :=
        File ''old\<newline>2024-01-01 12:00:05 [INFO] main.cpp:42 - \<newline>'')\<rparr>, app_logger)"
    by simp
  ultimately show ?thesis
    using app_logger_open le by (simp only: simp_thms)
qed

section \<open>A logger whose file is not open\<close>

text \<open>
  C4. Constructing a logger on a path that cannot be opened returns normally: the stream
  is left closed, the files are as they were, and the only effect is the notice on the
  diagnostic stream. On any logger whose stream is not open, \<open>log\<close>, \<open>debug\<close>, \<open>info\<close>,
  \<open>warning\<close> and \<open>error\<close> return the world and the logger they were given: nothing is
  written and no field changes. The operations have no failing result at all: the source
  has no \<^verbatim>\<open>throw\<close> and no error return, and the model's functions are total.
\<close>

theorem closed_handle_noop:
  "(files w name = Denied \<longrightarrow>
      Logger w name level =
        (w\<lparr>cerr := cerr w @ ''Error opening log file.'' @ ''\<newline>''\<rparr>,
         \<lparr>logLevel = level, logFileName = name, logFile = ofstream\<rparr>) \<and>
      \<not> is_open (logFile (snd (Logger w name level))) \<and>
      files (fst (Logger w name level)) = files w) \<and>
   (\<not> is_open (logFile this) \<longrightarrow>
      log w this now lv file line args = (w, this) \<and>
      debug w this now file line args = (w, this) \<and>
      info w this now file line args = (w, this) \<and>
      warning w this now file line args = (w, this) \<and>
      error w this now file line args = (w, this))"
  by (simp add: Logger_denied ofstream_def debug_def info_def warning_def error_def log_closed)

theorem closed_handle_noop_witness:
  "files disk ''/proc/app.log'' = Denied \<and>
   Logger disk ''/proc/app.log'' INFO =
     (disk\<lparr>cerr := ''Error opening log file.\<newline>''\<rparr>, proc_logger) \<and>
   files proc_world = files disk \<and>
   \<not> is_open (logFile proc_logger) \<and>
   warning proc_world proc_logger new_year ''main.cpp'' 42 [CStr ''port '', CInt 8080] =
     (proc_world, proc_logger) \<and>
   debug proc_world proc_logger new_year ''main.cpp'' 42 [] = (proc_world, proc_logger)"
proof -
  have d: "files disk ''/proc/app.log'' = Denied"
    by (simp add: disk_def)
  have c: "\<not> is_open (logFile proc_logger)"
    by (simp add: proc_logger_eq ofstream_def)
  have e: "cerr disk = []"
    by (simp add: disk_def)
  show ?thesis
    using closed_handle_noop [where w = disk and name = "''/proc/app.log''" and level = INFO
          and this = proc_logger]
      closed_handle_noop [where w = proc_world and name = "''/proc/app.log''"
          and this = proc_logger and now = new_year]
      d c
    by (simp add: proc_logger_eq proc_world_def e)
qed

section \<open>Level names\<close>

text \<open>
  C5. The level-to-name mapping sends \<open>DEBUG\<close>, \<open>INFO\<close>, \<open>WARNING\<close> and \<open>ERROR\<close> to their
  own names, and every level value that is none of the four to the empty string; it is
  defined on every value and never fails.
\<close>

theorem logLevelToString_total:
  "logLevelToString DEBUG = ''DEBUG'' \<and> logLevelToString INFO = ''INFO'' \<and>
   logLevelToString WARNING = ''WARNING'' \<and> logLevelToString ERROR = ''ERROR'' \<and>
   (level \<notin> {DEBUG, INFO, WARNING, ERROR} \<longrightarrow> logLevelToString level = [])"
  by (simp add: logLevelToString_def DEBUG_def INFO_def WARNING_def ERROR_def)

theorem logLevelToString_total_witness:
  "(7::int) \<notin> {DEBUG, INFO, WARNING, ERROR} \<and> logLevelToString 7 = [] \<and>
   (-1::int) \<notin> {DEBUG, INFO, WARNING, ERROR} \<and> logLevelToString (-1) = []"
  using logLevelToString_total [of 7] logLevelToString_total [of "-1"]
  by (simp add: DEBUG_def INFO_def WARNING_def ERROR_def)

section \<open>Changing the threshold\<close>

text \<open>
  C6. \<open>setLogLevel\<close> puts the given level, whatever it is, in place of the threshold of any
  logger and changes no other field; it cannot fail. A \<open>log\<close> call made afterwards
  filters by the new threshold alone: below it the call changes nothing, at or above it
  the call writes its line (on an open logger). After \<open>setLogLevel WARNING\<close>, an \<open>info\<close>
  call followed by an \<open>error\<close> call leaves exactly the error line added to the file.
\<close>

theorem setLogLevel_effective:
  "logLevel (setLogLevel this l) = l \<and>
   logFileName (setLogLevel this l) = logFileName this \<and>
   logFile (setLogLevel this l) = logFile this \<and>
   (level < l \<longrightarrow>
      log w (setLogLevel this l) now level file line args = (w, setLogLevel this l)) \<and>
   (l \<le> level \<and> open_on w this c \<longrightarrow>
      log w (setLogLevel this l) now level file line args =
        (w\<lparr>files := (files w)(target (logFile this) :=
              File (c @ put_time now ''%Y-%m-%d %H:%M:%S'' @ '' ['' @ logLevelToString level @
                    ''] '' @ file @ '':'' @ show_int line @ '' - '' @
                    concat (map render args) @ ''\<newline>''))\<rparr>, setLogLevel this l)) \<and>
   (open_on w this c \<longrightarrow>
      (case info w (setLogLevel this WARNING) now file line args of
         (w1, this1) \<Rightarrow>
           error w1 this1 now' file' line' args' =
             (w\<lparr>files := (files w)(target (logFile this) :=
                   File (c @ put_time now' ''%Y-%m-%d %H:%M:%S'' @ '' [ERROR] '' @ file' @ '':'' @
                         show_int line' @ '' - '' @ concat (map render args') @ ''\<newline>''))\<rparr>,
              setLogLevel this WARNING)))"
proof -
  have fields: "logLevel (setLogLevel this l) = l \<and>
      logFileName (setLogLevel this l) = logFileName this \<and>
      logFile (setLogLevel this l) = logFile this"
    by (simp add: setLogLevel_def)
  have below: "log w (setLogLevel this l) now level file line args = (w, setLogLevel this l)"
    if "level < l"
    by (rule log_drop) (simp add: setLogLevel_def that)
  have above: "log w (setLogLevel this l) now level file line args =
        (w\<lparr>files := (files w)(target (logFile this) :=
              File (c @ put_time now ''%Y-%m-%d %H:%M:%S'' @ '' ['' @ logLevelToString level @
                    ''] '' @ file @ '':'' @ show_int line @ '' - '' @
                    concat (map render args) @ ''\<newline>''))\<rparr>, setLogLevel this l)"
    if "l \<le> level" "open_on w this c" for l level w c now "file" line args
  proof -
    have "open_on w (setLogLevel this l) c"
      using that(2) by (simp add: open_on_setLogLevel)
    moreover have "logLevel (setLogLevel this l) \<le> level"
      using that(1) by (simp add: setLogLevel_def)
    ultimately show ?thesis
      using log_pass [of w "setLogLevel this l" c level] by (simp add: setLogLevel_def)
  qed
  have example: "(case info w (setLogLevel this WARNING) now file line args of
         (w1, this1) \<Rightarrow>
           error w1 this1 now' file' line' args' =
             (w\<lparr>files := (files w)(target (logFile this) :=
                   File (c @ put_time now' ''%Y-%m-%d %H:%M:%S'' @ '' [ERROR] '' @ file' @ '':'' @
                         show_int line' @ '' - '' @ concat (map render args') @ ''\<newline>''))\<rparr>,
              setLogLevel this WARNING))"
    if "open_on w this c"
  proof -
    have "info w (setLogLevel this WARNING) now file line args = (w, setLogLevel this WARNING)"
      unfolding info_def by (rule log_drop) (simp add: setLogLevel_def INFO_def WARNING_def)
    moreover have "error w (setLogLevel this WARNING) now' file' line' args' =
             (w\<lparr>files := (files w)(target (logFile this) :=
                   File (c @ put_time now' ''%Y-%m-%d %H:%M:%S'' @ '' [ERROR] '' @ file' @ '':'' @
                         show_int line' @ '' - '' @ concat (map render args') @ ''\<newline>''))\<rparr>,
              setLogLevel this WARNING)"
      unfolding error_def
      using above [of WARNING ERROR w c now' file' line' args'] that
      by (simp add: WARNING_def ERROR_def logLevelToString_def DEBUG_def INFO_def)
    ultimately show ?thesis by simp
  qed
  from fields below above [of l level w c now "file" line args] example show ?thesis by blast
qed

theorem setLogLevel_effective_witness:
  "open_on disk app_logger ''old\<newline>'' \<and>
   logLevel app_logger = INFO \<and> logLevel (setLogLevel app_logger WARNING) = WARNING \<and>
   INFO < WARNING \<and> WARNING \<le> ERROR \<and>
   log disk (setLogLevel app_logger WARNING) new_year INFO ''main.cpp'' 42 [CStr ''port '', CInt 8080] =
     (disk, setLogLevel app_logger WARNING) \<and>
   log disk (setLogLevel app_logger WARNING) new_year ERROR ''main.cpp'' 42 [CStr ''port '', CInt 8080] =
     (disk\<lparr>files := (files disk)(''app.log'' :=
        File ''old\<newline>2024-01-01 12:00:05 [ERROR] main.cpp:42 - port 8080\<newline>'')\<rparr>,
      setLogLevel app_logger WARNING)"
proof -
  have lv: "logLevel app_logger = INFO" and tg: "target (logFile app_logger) = ''app.log''"
    by (simp_all add: app_logger_eq)
  have ord: "INFO < WARNING" "WARNING \<le> ERROR"
    by (simp_all add: INFO_def WARNING_def ERROR_def)
  have nm: "logLevelToString ERROR = ''ERROR''"
    by (simp add: logLevelToString_def DEBUG_def INFO_def WARNING_def ERROR_def)
  note lo = setLogLevel_effective [where this = app_logger and l = WARNING and level = INFO
      and w = disk and now = new_year and line = 42 and args = "[CStr ''port '', CInt 8080]"]
  note hi = setLogLevel_effective [where this = app_logger and l = WARNING and level = ERROR
      and w = disk and c = "''old\<newline>''" and now = new_year and line = 42
      and args = "[CStr ''port '', CInt 8080]", unfolded tg nm new_year_stamp show_int_42]
  have "log disk (setLogLevel app_logger WARNING) new_year INFO ''main.cpp'' 42
          [CStr ''port '', CInt 8080] = (disk, setLogLevel app_logger WARNING)"
    using lo ord(1) by blast
  moreover have "log disk (setLogLevel app_logger WARNING) new_year ERROR ''main.cpp'' 42
      [CStr ''port '', CInt 8080] =
     (disk\<lparr>files := (files disk)(''app.log'' :=
        File ''old\<newline>2024-01-01 12:00:05 [ERROR] main.cpp:42 - port 8080\<newline>'')\<rparr>,
      setLogLevel app_logger WARNING)"
    using hi ord(2) app_logger_open by (simp add: show_int_8080)
  moreover have "logLevel (setLogLevel app_logger WARNING) = WARNING"
    using lo by blast
  ultimately show ?thesis
    using app_logger_open lv ord by (simp only: simp_thms)
qed

section \<open>The entry points\<close>

text \<open>
  C7. Each of \<open>debug\<close>, \<open>info\<close>, \<open>warning\<close> and \<open>error\<close> equals \<open>log\<close> at its own fixed
  level with the same source file, source line and message parts: on every input the two
  return the same world (so the same file contents) and the same logger.
\<close>

theorem entry_points_forward:
  "debug w this now file line args = log w this now DEBUG file line args \<and>
   info w this now file line args = log w this now INFO file line args \<and>
   warning w this now file line args = log w this now WARNING file line args \<and>
   error w this now file line args = log w this now ERROR file line args"
  by (simp add: debug_def info_def warning_def error_def)

section \<open>Appending\<close>

text \<open>
  C8. Constructing a logger on a path that names a file leaves the world as it is, the
  content of the file included, with the stream open on that path. After any sequence of
  \<open>log\<close> calls on the new logger the file holds its prior content followed by the lines
  of the calls that pass the filter, in the order of the calls. Two loggers on the same
  path one after the other (the first destroyed before the second is constructed), each
  writing one line, leave the prior content followed by the first line and then the
  second.
\<close>

theorem append_mode:
  assumes "files w name = File c"
  shows "fst (Logger w name level) = w \<and>
    open_on w (snd (Logger w name level)) c \<and>
    target (logFile (snd (Logger w name level))) = name \<and>
    files (fst (run w (snd (Logger w name level)) calls)) name =
      File (c @ concat (map (\<lambda>k. case k of Call now lv file line args \<Rightarrow>
             if level \<le> lv
             then put_time now ''%Y-%m-%d %H:%M:%S'' @ '' ['' @ logLevelToString lv @ ''] '' @ file @
                  '':'' @ show_int line @ '' - '' @ concat (map render args) @ ''\<newline>''
             else []) calls)) \<and>
    (l1 \<le> lv1 \<and> l2 \<le> lv2 \<longrightarrow>
       (case Logger w name l1 of (w1, a) \<Rightarrow>
        case log w1 a now1 lv1 file1 line1 args1 of (w2, a') \<Rightarrow>
        case Logger (Logger_destroy w2 a') name l2 of (w3, b) \<Rightarrow>
        case log w3 b now2 lv2 file2 line2 args2 of (w4, b') \<Rightarrow>
          files w4 name =
            File (c @
              put_time now1 ''%Y-%m-%d %H:%M:%S'' @ '' ['' @ logLevelToString lv1 @ ''] '' @ file1 @
                '':'' @ show_int line1 @ '' - '' @ concat (map render args1) @ ''\<newline>'' @
              put_time now2 ''%Y-%m-%d %H:%M:%S'' @ '' ['' @ logLevelToString lv2 @ ''] '' @ file2 @
                '':'' @ show_int line2 @ '' - '' @ concat (map render args2) @ ''\<newline>'')))"
proof -
  note ctor = Logger_open_on [OF assms]
  have many: "files (fst (run w (snd (Logger w name level)) calls)) name =
      File (c @ concat (map (\<lambda>k. case k of Call now lv file line args \<Rightarrow>
             if level \<le> lv
             then put_time now ''%Y-%m-%d %H:%M:%S'' @ '' ['' @ logLevelToString lv @ ''] '' @ file @
                  '':'' @ show_int line @ '' - '' @ concat (map render args) @ ''\<newline>''
             else []) calls))"
    using run_open [OF ctor(2) [of level], of calls] by (simp add: ctor)
  have two: "(case Logger w name l1 of (w1, a) \<Rightarrow>
        case log w1 a now1 lv1 file1 line1 args1 of (w2, a') \<Rightarrow>
        case Logger (Logger_destroy w2 a') name l2 of (w3, b) \<Rightarrow>
        case log w3 b now2 lv2 file2 line2 args2 of (w4, b') \<Rightarrow>
          files w4 name =
            File (c @
              put_time now1 ''%Y-%m-%d %H:%M:%S'' @ '' ['' @ logLevelToString lv1 @ ''] '' @ file1 @
                '':'' @ show_int line1 @ '' - '' @ concat (map render args1) @ ''\<newline>'' @
              put_time now2 ''%Y-%m-%d %H:%M:%S'' @ '' ['' @ logLevelToString lv2 @ ''] '' @ file2 @
                '':'' @ show_int line2 @ '' - '' @ concat (map render args2) @ ''\<newline>''))"
    if le: "l1 \<le> lv1" "l2 \<le> lv2"
  proof -
    let ?a = "\<lparr>logLevel = l1, logFileName = name,
               logFile = \<lparr>put_area = [], is_open = True, target = name\<rparr>\<rparr>"
    let ?c1 = "c @ put_time now1 ''%Y-%m-%d %H:%M:%S'' @ '' ['' @ logLevelToString lv1 @ ''] '' @
               file1 @ '':'' @ show_int line1 @ '' - '' @ concat (map render args1) @ ''\<newline>''"
    let ?w2 = "w\<lparr>files := (files w)(name := File ?c1)\<rparr>"
    let ?b = "\<lparr>logLevel = l2, logFileName = name,
               logFile = \<lparr>put_area = [], is_open = True, target = name\<rparr>\<rparr>"
    have A: "Logger w name l1 = (w, ?a)"
      using assms by (rule Logger_existing)
    have oa: "open_on w ?a c"
      using assms by (simp add: open_on_def)
    have L1: "log w ?a now1 lv1 file1 line1 args1 = (?w2, ?a)"
      using log_pass [OF oa, of lv1 now1 file1 line1 args1] le(1) by simp
    have oa2: "open_on ?w2 ?a ?c1"
      by (simp add: open_on_def)
    have D: "Logger_destroy ?w2 ?a = ?w2"
      using oa2 by (rule Logger_destroy_flushed)
    have f2: "files ?w2 name = File ?c1"
      by simp
    have B: "Logger ?w2 name l2 = (?w2, ?b)"
      using f2 by (rule Logger_existing)
    have ob: "open_on ?w2 ?b ?c1"
      by (simp add: open_on_def)
    let ?c2 = "?c1 @ put_time now2 ''%Y-%m-%d %H:%M:%S'' @ '' ['' @ logLevelToString lv2 @ ''] '' @
               file2 @ '':'' @ show_int line2 @ '' - '' @ concat (map render args2) @ ''\<newline>''"
    have L2: "log ?w2 ?b now2 lv2 file2 line2 args2 =
        (?w2\<lparr>files := (files ?w2)(name := File ?c2)\<rparr>, ?b)"
      using log_pass [OF ob, of lv2 now2 file2 line2 args2] le(2) by simp
    show ?thesis
      unfolding A prod.case L1 D B L2 by simp
  qed
  have both: "l1 \<le> lv1 \<and> l2 \<le> lv2 \<longrightarrow>
       (case Logger w name l1 of (w1, a) \<Rightarrow>
        case log w1 a now1 lv1 file1 line1 args1 of (w2, a') \<Rightarrow>
        case Logger (Logger_destroy w2 a') name l2 of (w3, b) \<Rightarrow>
        case log w3 b now2 lv2 file2 line2 args2 of (w4, b') \<Rightarrow>
          files w4 name =
            File (c @
              put_time now1 ''%Y-%m-%d %H:%M:%S'' @ '' ['' @ logLevelToString lv1 @ ''] '' @ file1 @
                '':'' @ show_int line1 @ '' - '' @ concat (map render args1) @ ''\<newline>'' @
              put_time now2 ''%Y-%m-%d %H:%M:%S'' @ '' ['' @ logLevelToString lv2 @ ''] '' @ file2 @
                '':'' @ show_int line2 @ '' - '' @ concat (map render args2) @ ''\<newline>''))"
    using two by (intro impI) (elim conjE)
  show ?thesis
    by (intro conjI) (rule ctor many both)+
qed

theorem append_mode_witness:
  "files disk ''app.log'' = File ''old\<newline>'' \<and>
   fst (Logger disk ''app.log'' INFO) = disk \<and>
   files (fst (run disk app_logger
      [Call new_year DEBUG ''main.cpp'' 7 [CStr ''quiet''],
       Call new_year ERROR ''main.cpp'' 42 [CStr ''port '', CInt 8080],
       Call new_year INFO ''util.cpp'' 7 []])) ''app.log'' =
     File ''old\<newline>2024-01-01 12:00:05 [ERROR] main.cpp:42 - port 8080\<newline>2024-01-01 12:00:05 [INFO] util.cpp:7 - \<newline>'' \<and>
   INFO \<le> WARNING \<and> DEBUG \<le> DEBUG \<and>
   (case Logger disk ''app.log'' INFO of (w1, a) \<Rightarrow>
    case log w1 a new_year WARNING ''main.cpp'' 42 [CStr ''first''] of (w2, a') \<Rightarrow>
    case Logger (Logger_destroy w2 a') ''app.log'' DEBUG of (w3, b) \<Rightarrow>
    case log w3 b new_year DEBUG ''util.cpp'' 7 [CStr ''second''] of (w4, b') \<Rightarrow>
      files w4 ''app.log'' =
        File ''old\<newline>2024-01-01 12:00:05 [WARNING] main.cpp:42 - first\<newline>2024-01-01 12:00:05 [DEBUG] util.cpp:7 - second\<newline>'')"
proof -
  have f: "files disk ''app.log'' = File ''old\<newline>''"
    by (simp add: disk_def)
  have ord: "INFO \<le> WARNING \<and> DEBUG \<le> DEBUG" "\<not> INFO \<le> DEBUG" "INFO \<le> ERROR"
    by (simp_all add: DEBUG_def INFO_def WARNING_def ERROR_def)
  have nm: "logLevelToString DEBUG = ''DEBUG''" "logLevelToString INFO = ''INFO''"
    "logLevelToString WARNING = ''WARNING''" "logLevelToString ERROR = ''ERROR''"
    by (simp_all add: logLevelToString_def DEBUG_def INFO_def WARNING_def ERROR_def)
  note inst = append_mode [OF f, of INFO
      "[Call new_year DEBUG ''main.cpp'' 7 [CStr ''quiet''],
        Call new_year ERROR ''main.cpp'' 42 [CStr ''port '', CInt 8080],
        Call new_year INFO ''util.cpp'' 7 []]"
      INFO WARNING DEBUG DEBUG new_year "''main.cpp''" 42 "[CStr ''first'']"
      new_year "''util.cpp''" 7 "[CStr ''second'']", folded app_logger_def]
  have 1: "fst (Logger disk ''app.log'' INFO) = disk"
    using inst by (rule conjunct1)
  have 2: "files (fst (run disk app_logger
      [Call new_year DEBUG ''main.cpp'' 7 [CStr ''quiet''],
       Call new_year ERROR ''main.cpp'' 42 [CStr ''port '', CInt 8080],
       Call new_year INFO ''util.cpp'' 7 []])) ''app.log'' =
     File ''old\<newline>2024-01-01 12:00:05 [ERROR] main.cpp:42 - port 8080\<newline>2024-01-01 12:00:05 [INFO] util.cpp:7 - \<newline>''"
    using inst by (simp add: ord nm new_year_stamp show_int_42 show_int_7 show_int_8080)
  have 3: "(case Logger disk ''app.log'' INFO of (w1, a) \<Rightarrow>
    case log w1 a new_year WARNING ''main.cpp'' 42 [CStr ''first''] of (w2, a') \<Rightarrow>
    case Logger (Logger_destroy w2 a') ''app.log'' DEBUG of (w3, b) \<Rightarrow>
    case log w3 b new_year DEBUG ''util.cpp'' 7 [CStr ''second''] of (w4, b') \<Rightarrow>
      files w4 ''app.log'' =
        File ''old\<newline>2024-01-01 12:00:05 [WARNING] main.cpp:42 - first\<newline>2024-01-01 12:00:05 [DEBUG] util.cpp:7 - second\<newline>'')"
    using inst ord(1) by (simp add: nm new_year_stamp show_int_42 show_int_7)
  from f 1 2 ord(1) 3 show ?thesis
    by (simp only: simp_thms)
qed

section \<open>Rendering the message parts\<close>

text \<open>
  C10. \<open>logMessage\<close> is defined on every finite list of parts; its termination proof is
  the measure "number of parts left". The empty list is the base case, a step inserts
  the first part and goes on with the strictly shorter rest, and a list of \<open>n\<close> parts
  makes exactly \<open>n\<close> insertions into the stream, in order, and touches nothing else of it.
\<close>

theorem logMessage_writes:
  "logMessage stream [] = stream \<and>
   logMessage stream (v # args) = logMessage (out stream (render v)) args \<and>
   length args < length (v # args) \<and>
   put_area (logMessage stream args) = put_area stream @ map render args \<and>
   length (put_area (logMessage stream args)) = length (put_area stream) + length args \<and>
   ostream.more (logMessage stream args) = ostream.more stream"
  by (simp add: logMessage_eq out_def)

end
